theory Spec2Isabelle
  imports Main "HOL-Library.Sublist"
begin

section \<open>JavaScript values and built-ins used by the backend\<close>

text \<open>
  The backend is JavaScript (Express and SQLite). Dynamic values that reach the code
  (query parameters, JSON body fields, option fields) are modelled by \<open>jsval\<close>.
  Numbers are mathematical integers: a JavaScript Number is a double, exact for
  integers of magnitude below \<open>2^53\<close>, and prints in plain decimal below \<open>10^21\<close>;
  statements about numeric identifiers are made for that range. Strings are ASCII
  text (\<open>char list\<close>); code points above 127 are neither white space nor letters here.
\<close>

datatype jsval = JUndefined | JNull | JNum int | JStr string

definition truthy :: "jsval \<Rightarrow> bool" where
  "truthy v = (case v of JUndefined \<Rightarrow> False | JNull \<Rightarrow> False
                | JNum n \<Rightarrow> n \<noteq> 0 | JStr s \<Rightarrow> s \<noteq> [])"

text \<open>\<open>a || b\<close>\<close>

definition js_or :: "jsval \<Rightarrow> jsval \<Rightarrow> jsval" where
  "js_or a b = (if truthy a then a else b)"

text \<open>White space of \<open>String.prototype.trim\<close>, \<open>parseInt\<close> and the regex class \<open>\s\<close>
  (TAB, LF, VT, FF, CR, SPACE).\<close>

definition isWhiteSpace :: "char \<Rightarrow> bool" where
  "isWhiteSpace c = (of_char c \<in> {9, 10, 11, 12, 13, 32 :: nat})"

definition trim :: "string \<Rightarrow> string" where
  "trim s = rev (dropWhile isWhiteSpace (rev (dropWhile isWhiteSpace s)))"

definition lowerChar :: "char \<Rightarrow> char" where
  "lowerChar c = (if 65 \<le> (of_char c :: nat) \<and> (of_char c :: nat) \<le> 90
                  then char_of (of_char c + 32 :: nat) else c)"


definition toLowerCase :: "string \<Rightarrow> string" where
  "toLowerCase s = map lowerChar s"


text \<open>\<open>hay.includes(needle)\<close>: \<open>needle\<close> occurs in \<open>hay\<close> as a contiguous substring.\<close>

fun str_includes :: "string \<Rightarrow> string \<Rightarrow> bool" where
  "str_includes [] needle = (needle = [])"
| "str_includes (c # cs) needle = (prefix needle (c # cs) \<or> str_includes cs needle)"

text \<open>Decimal printing of an integer-valued Number (\<open>Number.prototype.toString\<close>).\<close>

fun digitString :: "nat \<Rightarrow> string" where
  "digitString n = (if n < 10 then [char_of (48 + n)]
                    else digitString (n div 10) @ [char_of (48 + n mod 10)])"

declare digitString.simps [simp del]

definition Number_toString :: "int \<Rightarrow> string" where
  "Number_toString i = (if i < 0 then CHR ''-'' # digitString (nat (- i))
                        else digitString (nat i))"

definition ToString :: "jsval \<Rightarrow> string" where
  "ToString v = (case v of JUndefined \<Rightarrow> ''undefined'' | JNull \<Rightarrow> ''null''
                  | JNum n \<Rightarrow> Number_toString n | JStr s \<Rightarrow> s)"

text \<open>
  \<open>parseInt(string)\<close> with no radix argument (ECMAScript 19.2.5): convert the argument
  with ToString, skip leading white space, read an optional sign, strip a \<open>0x\<close>/\<open>0X\<close>
  prefix (radix 16, otherwise radix 10), take the longest prefix of radix digits; an
  empty prefix gives NaN, modelled as \<open>None\<close>.
\<close>

definition digitValue :: "char \<Rightarrow> nat option" where
  "digitValue c =
     (let n = (of_char c :: nat) in
      if 48 \<le> n \<and> n \<le> 57 then Some (n - 48)
      else if 97 \<le> n \<and> n \<le> 122 then Some (n - 87)
      else if 65 \<le> n \<and> n \<le> 90 then Some (n - 55)
      else None)"

definition isRadixDigit :: "nat \<Rightarrow> char \<Rightarrow> bool" where
  "isRadixDigit R c = (case digitValue c of Some d \<Rightarrow> d < R | None \<Rightarrow> False)"

definition mathInt :: "nat \<Rightarrow> string \<Rightarrow> nat" where
  "mathInt R Z = foldl (\<lambda>a c. a * R + (case digitValue c of Some d \<Rightarrow> d | None \<Rightarrow> 0)) 0 Z"

definition parseIntString :: "string \<Rightarrow> int option" where
  "parseIntString inputString =
     (let S = dropWhile isWhiteSpace inputString;
          sign = (if take 1 S = ''-'' then - 1 else 1 :: int);
          S1 = (if take 1 S = ''-'' \<or> take 1 S = ''+'' then drop 1 S else S);
          hex = (take 2 S1 = ''0x'' \<or> take 2 S1 = ''0X'');
          R = (if hex then 16 else 10);
          S2 = (if hex then drop 2 S1 else S1);
          Z = takeWhile (isRadixDigit R) S2
      in if Z = [] then None else Some (sign * int (mathInt R Z)))"

definition parseInt :: "jsval \<Rightarrow> int option" where
  "parseInt v = parseIntString (ToString v)"



section \<open>Storage: the \<open>clients\<close> table (database/init.js)\<close>

text \<open>
  \<open>CREATE_CLIENTS_TABLE\<close>: \<open>id INTEGER PRIMARY KEY AUTOINCREMENT\<close>, \<open>name\<close> and \<open>email\<close>
  \<open>NOT NULL\<close>, \<open>email UNIQUE\<close>, \<open>phone\<close> nullable, \<open>created_at\<close> and \<open>updated_at\<close> with
  \<open>DEFAULT CURRENT_TIMESTAMP\<close>. A timestamp is the number of seconds of SQLite's
  \<open>YYYY-MM-DD HH:MM:SS\<close> text, whose text order is the order of time. The column \<open>id\<close>
  is the field \<open>id'\<close>. The current time of a statement is the parameter \<open>now\<close>.
\<close>

record client =
  id' :: int
  name :: string
  email :: string
  phone :: "string option"
  created_at :: int
  updated_at :: int

text \<open>The table: its rows in rowid order, and \<open>sqlite_sequence\<close>, the largest rowid
  AUTOINCREMENT has handed out.\<close>

record database =
  rows :: "client list"
  seq :: int

definition empty_database :: database where
  "empty_database = \<lparr>rows = [], seq = 0\<rparr>"

text \<open>Binding a JavaScript value to a statement parameter of a TEXT column:
  \<open>undefined\<close> and \<open>null\<close> bind NULL.\<close>

definition bind :: "jsval \<Rightarrow> string option" where
  "bind v = (case v of JUndefined \<Rightarrow> None | JNull \<Rightarrow> None
              | JNum n \<Rightarrow> Some (Number_toString n) | JStr s \<Rightarrow> Some s)"

definition UNIQUE_failed :: string where
  "UNIQUE_failed = ''SQLITE_CONSTRAINT: UNIQUE constraint failed: clients.email''"

definition NOT_NULL_failed :: string where
  "NOT_NULL_failed = ''SQLITE_CONSTRAINT: NOT NULL constraint failed: clients''"

text \<open>\<open>SELECT * FROM clients WHERE id = ?\<close>\<close>

definition select_by_id :: "database \<Rightarrow> int \<Rightarrow> client option" where
  "select_by_id db i = find (\<lambda>r. id' r = i) (rows db)"

text \<open>\<open>INSERT INTO clients (name, email, phone) VALUES (?, ?, ?)\<close>: the result is the
  error message of the rejected statement, or the new table and \<open>lastID\<close>.\<close>

definition next_rowid :: "database \<Rightarrow> int" where
  "next_rowid db = max (seq db) (fold max (map id' (rows db)) 0) + 1"

definition sql_insert ::
  "database \<Rightarrow> int \<Rightarrow> string option \<Rightarrow> string option \<Rightarrow> string option
     \<Rightarrow> string + (database \<times> int)" where
  "sql_insert db now nm em ph =
     (case nm of None \<Rightarrow> Inl NOT_NULL_failed
      | Some n \<Rightarrow>
     (case em of None \<Rightarrow> Inl NOT_NULL_failed
      | Some e \<Rightarrow>
        if \<exists>r \<in> set (rows db). email r = e then Inl UNIQUE_failed
        else let i = next_rowid db in
          Inr (db\<lparr>rows := rows db @
                  [\<lparr>id' = i, name = n, email = e, phone = ph,
                    created_at = now, updated_at = now\<rparr>],
                 seq := i\<rparr>, i)))"

text \<open>\<open>CREATE_UPDATE_TRIGGER\<close>: after an update of a row,
  \<open>UPDATE clients SET updated_at = CURRENT_TIMESTAMP WHERE id = NEW.id\<close>.\<close>

definition update_clients_updated_at :: "int \<Rightarrow> client \<Rightarrow> client" where
  "update_clients_updated_at now r = r\<lparr>updated_at := now\<rparr>"

text \<open>\<open>UPDATE clients SET [name = ?,] [email = ?,] [phone = ?,] updated_at =
  CURRENT_TIMESTAMP WHERE id = ?\<close>: a column is in the statement when its value is not
  \<open>undefined\<close>.\<close>

definition set_columns :: "jsval \<Rightarrow> jsval \<Rightarrow> jsval \<Rightarrow> int \<Rightarrow> client \<Rightarrow> client" where
  "set_columns nm em ph now r =
     (let r1 = (case bind nm of Some n \<Rightarrow> r\<lparr>name := n\<rparr> | None \<Rightarrow> r);
          r2 = (case bind em of Some e \<Rightarrow> r1\<lparr>email := e\<rparr> | None \<Rightarrow> r1);
          r3 = (if ph = JUndefined then r2 else r2\<lparr>phone := bind ph\<rparr>)
      in r3\<lparr>updated_at := now\<rparr>)"

definition sql_update ::
  "database \<Rightarrow> int \<Rightarrow> jsval \<Rightarrow> jsval \<Rightarrow> jsval \<Rightarrow> int \<Rightarrow> string + database" where
  "sql_update db now nm em ph clientId =
     (if \<not> (\<exists>r \<in> set (rows db). id' r = clientId) then Inr db
      else if nm = JNull \<or> em = JNull then Inl NOT_NULL_failed
      else if \<exists>r \<in> set (rows db). id' r \<noteq> clientId \<and> bind em = Some (email r)
        then Inl UNIQUE_failed
      else Inr (db\<lparr>rows := map (\<lambda>r. if id' r = clientId
                  then update_clients_updated_at now (set_columns nm em ph now r)
                  else r) (rows db)\<rparr>))"

text \<open>\<open>DELETE FROM clients WHERE id = ?\<close>, with the number of rows removed.\<close>

definition sql_delete :: "database \<Rightarrow> int \<Rightarrow> database \<times> nat" where
  "sql_delete db clientId =
     (db\<lparr>rows := filter (\<lambda>r. id' r \<noteq> clientId) (rows db)\<rparr>,
      length (filter (\<lambda>r. id' r = clientId) (rows db)))"

section \<open>The data-access layer: class \<open>Client\<close> (models/Client.js)\<close>

text \<open>
  A thrown \<open>Error\<close> is its message, the left injection of a sum; the handlers of the
  source classify errors by searching the message. Failures of the storage engine other
  than constraint violations (a lost connection, a full disk) are outside the model.

  Names: \<open>Client_f\<close> is the static method \<open>Client.f\<close> (a private \<open>_f\<close> loses its
  underscore); \<open>f_try\<close> is the \<open>try\<close> block of \<open>f\<close> and \<open>f_catch\<close> its \<open>catch\<close> block. A
  method that writes takes the table and the time of its statement and returns the
  table with its result.
\<close>

subsection \<open>Private helpers\<close>

text \<open>\<open>Client._validateId\<close>\<close>

definition Client_validateId :: "jsval \<Rightarrow> string + int" where
  "Client_validateId i =
     (case parseInt i of
        None \<Rightarrow> Inl ''Invalid ID: must be a positive integer''
      | Some numId \<Rightarrow>
          if numId \<le> 0 then Inl ''Invalid ID: must be a positive integer''
          else Inr numId)"



text \<open>\<open>/^[a-zA-Z\s\-'\.]+$/\<close>\<close>

definition isLetter :: "char \<Rightarrow> bool" where
  "isLetter c = ((97 \<le> (of_char c :: nat) \<and> (of_char c :: nat) \<le> 122)
               \<or> (65 \<le> (of_char c :: nat) \<and> (of_char c :: nat) \<le> 90))"

definition isDigit :: "char \<Rightarrow> bool" where
  "isDigit c = (48 \<le> (of_char c :: nat) \<and> (of_char c :: nat) \<le> 57)"

definition nameChar :: "char \<Rightarrow> bool" where
  "nameChar c = (isLetter c \<or> isWhiteSpace c \<or> c = CHR ''-'' \<or> c = CHR 0x27 \<or> c = CHR ''.'')"

definition nameRegex :: "string \<Rightarrow> bool" where
  "nameRegex s = (s \<noteq> [] \<and> list_all nameChar s)"

text \<open>\<open>Client._isValidEmail\<close>, \<open>/^[^\s@]+@[^\s@]+\.[^\s@]+$/\<close>: a non-empty local part, one
  \<open>@\<close>, and a domain with a dot that is neither its first nor its last character; no
  white space anywhere.\<close>

definition isValidEmail :: "string \<Rightarrow> bool" where
  "isValidEmail s =
     (let local = takeWhile (\<lambda>c. c \<noteq> CHR ''@'') s;
          rest = dropWhile (\<lambda>c. c \<noteq> CHR ''@'') s;
          domain = drop 1 rest
      in local \<noteq> [] \<and> list_all (\<lambda>c. \<not> isWhiteSpace c) local \<and> rest \<noteq> [] \<and>
         list_all (\<lambda>c. \<not> isWhiteSpace c \<and> c \<noteq> CHR ''@'') domain \<and>
         list_ex (\<lambda>i. domain ! i = CHR ''.'') [1 ..< length domain - 1])"

text \<open>\<open>Client._isValidPhone\<close>, \<open>/^[\+]?[\d\s\-\(\)\.]{10,20}$/\<close>\<close>

definition phoneChar :: "char \<Rightarrow> bool" where
  "phoneChar c = (isDigit c \<or> isWhiteSpace c \<or> c = CHR ''-'' \<or> c = CHR ''(''
                 \<or> c = CHR '')'' \<or> c = CHR ''.'')"

definition isValidPhone :: "string \<Rightarrow> bool" where
  "isValidPhone s =
     (let body = (if take 1 s = ''+'' then drop 1 s else s)
      in 10 \<le> length body \<and> length body \<le> 20 \<and> list_all phoneChar body)"

text \<open>The payload of create and update: the three fields the controller extracts from
  the request body; \<open>JUndefined\<close> is an absent field.\<close>

record client_data =
  data_name :: jsval
  data_email :: jsval
  data_phone :: jsval

text \<open>The object \<open>validated\<close> that \<open>Client._validateClientData\<close> returns.\<close>

record validated =
  valid_name :: jsval
  valid_email :: jsval
  valid_phone :: jsval

definition validate_name :: "jsval \<Rightarrow> bool \<Rightarrow> string + jsval" where
  "validate_name v requireAll =
     (if v \<noteq> JUndefined then
        (let nm = trim (ToString (js_or v (JStr []))) in
         if requireAll \<and> nm = [] then Inl ''Name is required''
         else if nm \<noteq> [] \<and> (length nm < 1 \<or> length nm > 100)
           then Inl ''Name must be between 1 and 100 characters''
         else if nm \<noteq> [] \<and> \<not> nameRegex nm then Inl ''Name contains invalid characters''
         else Inr (if nm \<noteq> [] then JStr nm else JUndefined))
      else if requireAll then Inl ''Name is required''
      else Inr JUndefined)"

definition validate_email :: "jsval \<Rightarrow> bool \<Rightarrow> string + jsval" where
  "validate_email v requireAll =
     (if v \<noteq> JUndefined then
        (let em = toLowerCase (trim (ToString (js_or v (JStr [])))) in
         if requireAll \<and> em = [] then Inl ''Email is required''
         else if em \<noteq> [] \<and> \<not> isValidEmail em then Inl ''Invalid email format''
         else if em \<noteq> [] \<and> length em > 100
           then Inl ''Email must be less than 100 characters''
         else Inr (if em \<noteq> [] then JStr em else JUndefined))
      else if requireAll then Inl ''Email is required''
      else Inr JUndefined)"

definition validate_phone :: "jsval \<Rightarrow> string + jsval" where
  "validate_phone v =
     (if v \<noteq> JUndefined then
        (let ph = (if truthy v then JStr (trim (ToString v)) else JNull) in
         if truthy ph \<and> length (ToString ph) > 20
           then Inl ''Phone number must be less than 20 characters''
         else if truthy ph \<and> \<not> isValidPhone (ToString ph)
           then Inl ''Invalid phone number format''
         else Inr ph)
      else Inr JUndefined)"

text \<open>\<open>Client._validateClientData\<close>: the name block, the email block, the phone block,
  in this order; the first failing check throws.\<close>

definition Client_validateClientData :: "client_data \<Rightarrow> bool \<Rightarrow> string + validated" where
  "Client_validateClientData data requireAll =
     (case validate_name (data_name data) requireAll of
        Inl e \<Rightarrow> Inl e
      | Inr vn \<Rightarrow>
     (case validate_email (data_email data) requireAll of
        Inl e \<Rightarrow> Inl e
      | Inr ve \<Rightarrow>
     (case validate_phone (data_phone data) of
        Inl e \<Rightarrow> Inl e
      | Inr vp \<Rightarrow> Inr \<lparr>valid_name = vn, valid_email = ve, valid_phone = vp\<rparr>)))"

text \<open>\<open>Client._checkEmailUniqueness\<close>: \<open>SELECT id FROM clients WHERE email = ?\<close>, with
  \<open>AND id != ?\<close> when \<open>excludeId\<close> is truthy.\<close>

definition Client_checkEmailUniqueness ::
  "database \<Rightarrow> jsval \<Rightarrow> int option \<Rightarrow> string + unit" where
  "Client_checkEmailUniqueness db em excludeId =
     (let excluding = (case excludeId of None \<Rightarrow> False | Some i \<Rightarrow> i \<noteq> 0);
          existing = find (\<lambda>r. bind em = Some (email r) \<and>
                                (if excluding then Some (id' r) \<noteq> excludeId else True))
                          (rows db)
      in case existing of
           Some _ \<Rightarrow> Inl ''Email address already exists''
         | None \<Rightarrow> Inr ())"

subsection \<open>\<open>Client.findById\<close>\<close>

definition Client_findById :: "database \<Rightarrow> jsval \<Rightarrow> string + client option" where
  "Client_findById db i =
     (case Client_validateId i of
        Inr clientId \<Rightarrow> Inr (select_by_id db clientId)
      | Inl msg \<Rightarrow>
          if str_includes msg ''Invalid ID'' then Inr None
          else Inl (''Failed to retrieve client: '' @ msg))"

subsection \<open>\<open>Client.create\<close>\<close>

text \<open>
  Every \<open>await\<close> of the source is a point where another request may run. The body of
  \<open>create\<close> reads the table in the pre-check and writes it in the INSERT; \<open>seen\<close> is the
  table the pre-check reads and \<open>db\<close> the table the INSERT meets. With no other request
  in between they are the same table (\<open>Client_create\<close>).
\<close>

definition create_try ::
  "database \<Rightarrow> database \<Rightarrow> int \<Rightarrow> client_data \<Rightarrow> database \<times> (string + client)" where
  "create_try seen db now clientData =
     (case Client_validateClientData clientData True of
        Inl e \<Rightarrow> (db, Inl e)
      | Inr validatedData \<Rightarrow>
     (case Client_checkEmailUniqueness seen (valid_email validatedData) None of
        Inl e \<Rightarrow> (db, Inl e)
      | Inr _ \<Rightarrow>
     (case sql_insert db now (bind (valid_name validatedData))
             (bind (valid_email validatedData)) (bind (valid_phone validatedData)) of
        Inl e \<Rightarrow> (db, Inl e)
      | Inr (db', lastID) \<Rightarrow>
     (case Client_findById db' (JNum lastID) of
        Inl e \<Rightarrow> (db', Inl e)
      | Inr None \<Rightarrow> (db', Inl ''Failed to retrieve created client'')
      | Inr (Some createdClient) \<Rightarrow> (db', Inr createdClient)))))"

text \<open>The \<open>catch\<close> block of \<open>Client.create\<close>: the message of the error it throws.\<close>

definition create_catch :: "string \<Rightarrow> string" where
  "create_catch msg =
     (if str_includes msg ''UNIQUE constraint failed''
      then ''Email address already exists''
      else ''Failed to create client: '' @ msg)"

definition create_interleaved ::
  "database \<Rightarrow> database \<Rightarrow> int \<Rightarrow> client_data \<Rightarrow> database \<times> (string + client)" where
  "create_interleaved seen db now clientData =
     (case create_try seen db now clientData of
        (db', Inr createdClient) \<Rightarrow> (db', Inr createdClient)
      | (db', Inl msg) \<Rightarrow> (db', Inl (create_catch msg)))"

definition Client_create ::
  "database \<Rightarrow> int \<Rightarrow> client_data \<Rightarrow> database \<times> (string + client)" where
  "Client_create db now clientData = create_interleaved db db now clientData"

subsection \<open>\<open>Client.update\<close>\<close>

text \<open>As for create: \<open>seen\<close> is the table read by the existence check and the
  pre-check, \<open>db\<close> the table the UPDATE meets.\<close>

definition update_try ::
  "database \<Rightarrow> database \<Rightarrow> int \<Rightarrow> jsval \<Rightarrow> client_data
     \<Rightarrow> database \<times> (string + client option)" where
  "update_try seen db now i clientData =
     (case Client_validateId i of
        Inl e \<Rightarrow> (db, Inl e)
      | Inr clientId \<Rightarrow>
     (case Client_findById seen (JNum clientId) of
        Inl e \<Rightarrow> (db, Inl e)
      | Inr None \<Rightarrow> (db, Inl ''Client not found'')
      | Inr (Some existingClient) \<Rightarrow>
     (case Client_validateClientData clientData False of
        Inl e \<Rightarrow> (db, Inl e)
      | Inr validatedData \<Rightarrow>
     (case (if truthy (valid_email validatedData)
               \<and> valid_email validatedData \<noteq> JStr (email existingClient)
            then Client_checkEmailUniqueness seen (valid_email validatedData) (Some clientId)
            else Inr ()) of
        Inl e \<Rightarrow> (db, Inl e)
      | Inr _ \<Rightarrow>
          if valid_name validatedData = JUndefined \<and> valid_email validatedData = JUndefined
             \<and> valid_phone validatedData = JUndefined
          then (db, Inr (Some existingClient))
          else
     (case sql_update db now (valid_name validatedData) (valid_email validatedData)
             (valid_phone validatedData) clientId of
        Inl e \<Rightarrow> (db, Inl e)
      | Inr db' \<Rightarrow>
     (case Client_findById db' (JNum clientId) of
        Inl e \<Rightarrow> (db', Inl e)
      | Inr updatedClient \<Rightarrow> (db', Inr updatedClient)))))))"

text \<open>The \<open>catch\<close> block of \<open>Client.update\<close>.\<close>

definition update_catch :: "string \<Rightarrow> string" where
  "update_catch msg =
     (if str_includes msg ''UNIQUE constraint failed''
      then ''Email address already exists''
      else ''Failed to update client: '' @ msg)"

definition update_interleaved ::
  "database \<Rightarrow> database \<Rightarrow> int \<Rightarrow> jsval \<Rightarrow> client_data
     \<Rightarrow> database \<times> (string + client option)" where
  "update_interleaved seen db now i clientData =
     (case update_try seen db now i clientData of
        (db', Inr updatedClient) \<Rightarrow> (db', Inr updatedClient)
      | (db', Inl msg) \<Rightarrow> (db', Inl (update_catch msg)))"

definition Client_update ::
  "database \<Rightarrow> int \<Rightarrow> jsval \<Rightarrow> client_data \<Rightarrow> database \<times> (string + client option)" where
  "Client_update db now i clientData = update_interleaved db db now i clientData"

subsection \<open>\<open>Client.delete\<close>\<close>

definition Client_delete :: "database \<Rightarrow> jsval \<Rightarrow> database \<times> (string + bool)" where
  "Client_delete db i =
     (case Client_validateId i of
        Inl e \<Rightarrow> (db, Inl (''Failed to delete client: '' @ e))
      | Inr clientId \<Rightarrow>
     (case Client_findById db (JNum clientId) of
        Inl e \<Rightarrow> (db, Inl (''Failed to delete client: '' @ e))
      | Inr None \<Rightarrow> (db, Inr False)
      | Inr (Some existingClient) \<Rightarrow>
          (case sql_delete db clientId of (db', changes) \<Rightarrow> (db', Inr (changes > 0)))))"

subsection \<open>\<open>Client.getStats\<close>\<close>

text \<open>The object \<open>getStats\<close> returns: the properties \<open>total\<close> (here \<open>stats_total\<close>),
  \<open>recentlyAdded\<close>, \<open>oldestCreated\<close> and \<open>newestCreated\<close>, and no other.
  \<open>datetime('now', '-7 days')\<close> is \<open>now\<close> less 604800 seconds.\<close>

record stats =
  stats_total :: nat
  recentlyAdded :: nat
  oldestCreated :: "int option"
  newestCreated :: "int option"

definition Client_getStats :: "database \<Rightarrow> int \<Rightarrow> stats" where
  "Client_getStats db now =
     \<lparr>stats_total = length (rows db),
      recentlyAdded = length (filter (\<lambda>r. created_at r \<ge> now - 604800) (rows db)),
      oldestCreated = (case rows db of [] \<Rightarrow> None
                       | r # rs \<Rightarrow> Some (fold min (map created_at rs) (created_at r))),
      newestCreated = (case rows db of [] \<Rightarrow> None
                       | r # rs \<Rightarrow> Some (fold max (map created_at rs) (created_at r)))\<rparr>"

subsection \<open>\<open>Client.findAll\<close>\<close>









record find_result =
  clients :: "client list"
  total :: int
  page :: int
  limit :: int
  totalPages :: int
  hasNext :: bool
  hasPrev :: bool






section \<open>The request handlers (controllers/clientController.js)\<close>

text \<open>The error object of \<open>createError\<close>, passed to \<open>next\<close>.\<close>

record api_error =
  status :: nat
  code :: string
  message :: string
  details :: string

definition createError :: "nat \<Rightarrow> string \<Rightarrow> string \<Rightarrow> string \<Rightarrow> api_error" where
  "createError st cd msg det = \<lparr>status = st, code = cd, message = msg, details = det\<rparr>"

text \<open>What a handler does with the response: \<open>res.status(s).json(...)\<close> with the data and
  the message, \<open>res.status(s).send()\<close>, or \<open>next(error)\<close>.\<close>

datatype 'a response = Json nat 'a string | Send nat | Next api_error

text \<open>The global error handler of server.js answers \<open>next(err)\<close> with
  \<open>err.status || 500\<close> and \<open>err.code || 'INTERNAL_ERROR'\<close>.\<close>

definition http_status :: "'a response \<Rightarrow> nat" where
  "http_status r = (case r of Json s _ _ \<Rightarrow> s | Send s \<Rightarrow> s
                    | Next e \<Rightarrow> if status e = 0 then 500 else status e)"


text \<open>\<open>validateIdParameter\<close>\<close>

definition validateIdParameter :: "jsval \<Rightarrow> string + int" where
  "validateIdParameter i =
     (case parseInt i of
        None \<Rightarrow> Inl ''Invalid ID: must be a positive integer''
      | Some numId \<Rightarrow>
          if numId \<le> 0 then Inl ''Invalid ID: must be a positive integer''
          else Inr numId)"


text \<open>\<open>validateRequiredFields(data, ['name', 'email'])\<close>\<close>

definition field_missing :: "jsval \<Rightarrow> bool" where
  "field_missing v = (\<not> truthy v \<or> (case v of JStr s \<Rightarrow> trim s = [] | _ \<Rightarrow> False))"

fun join :: "string \<Rightarrow> string list \<Rightarrow> string" where
  "join sep [] = []"
| "join sep [x] = x"
| "join sep (x # y # ys) = x @ sep @ join sep (y # ys)"

definition validateRequiredFields :: "client_data \<Rightarrow> string + unit" where
  "validateRequiredFields data =
     (let missingFields = (if field_missing (data_name data) then [''name''] else []) @
                          (if field_missing (data_email data) then [''email''] else [])
      in if length missingFields > 0
         then Inl (''Missing required fields: '' @ join '', '' missingFields)
         else Inr ())"

text \<open>\<open>extractClientData\<close>: the three known fields of the body; any other field is
  dropped.\<close>

definition extractClientData :: "client_data \<Rightarrow> client_data" where
  "extractClientData body =
     \<lparr>data_name = data_name body, data_email = data_email body, data_phone = data_phone body\<rparr>"

subsection \<open>\<open>getAllClients\<close>\<close>


subsection \<open>\<open>getClientById\<close>\<close>

definition getClientById :: "database \<Rightarrow> jsval \<Rightarrow> client response" where
  "getClientById db i =
     (case (case validateIdParameter i of
              Inl e \<Rightarrow> Inl e
            | Inr clientId \<Rightarrow>
                (case Client_findById db (JNum clientId) of
                   Inl e \<Rightarrow> Inl e
                 | Inr cl \<Rightarrow> Inr (clientId, cl))) of
        Inr (clientId, None) \<Rightarrow>
          Next (createError 404 ''NOT_FOUND'' ''Client not found''
                  (''No client found with ID '' @ Number_toString clientId))
      | Inr (clientId, Some cl) \<Rightarrow> Json 200 cl ''Client retrieved successfully''
      | Inl msg \<Rightarrow>
          if str_includes msg ''Invalid ID''
          then Next (createError 400 ''VALIDATION_ERROR'' ''Invalid client ID'' msg)
          else Next (createError 500 ''INTERNAL_ERROR'' ''Failed to retrieve client'' msg))"

subsection \<open>\<open>createClient\<close>\<close>

text \<open>The \<open>catch\<close> block of \<open>createClient\<close>.\<close>

definition createClient_catch :: "string \<Rightarrow> api_error" where
  "createClient_catch msg =
     (if str_includes msg ''required'' \<or> str_includes msg ''Invalid''
         \<or> str_includes msg ''must be''
      then createError 400 ''VALIDATION_ERROR'' ''Invalid input data'' msg
      else if str_includes msg ''already exists''
      then createError 409 ''DUPLICATE_EMAIL'' ''Email already exists'' msg
      else createError 500 ''INTERNAL_ERROR'' ''Failed to create client'' msg)"

definition createClient_interleaved ::
  "database \<Rightarrow> database \<Rightarrow> int \<Rightarrow> client_data \<Rightarrow> database \<times> client response" where
  "createClient_interleaved seen db now body =
     (case (case validateRequiredFields (extractClientData body) of
              Inl e \<Rightarrow> (db, Inl e)
            | Inr _ \<Rightarrow> create_interleaved seen db now (extractClientData body)) of
        (db', Inr createdClient) \<Rightarrow> (db', Json 201 createdClient ''Client created successfully'')
      | (db', Inl msg) \<Rightarrow> (db', Next (createClient_catch msg)))"

definition createClient :: "database \<Rightarrow> int \<Rightarrow> client_data \<Rightarrow> database \<times> client response" where
  "createClient db now body = createClient_interleaved db db now body"

subsection \<open>\<open>updateClient\<close>\<close>

text \<open>The \<open>catch\<close> block of \<open>updateClient\<close>.\<close>

definition updateClient_catch :: "string \<Rightarrow> api_error" where
  "updateClient_catch msg =
     (if str_includes msg ''Invalid ID''
      then createError 400 ''VALIDATION_ERROR'' ''Invalid client ID'' msg
      else if str_includes msg ''not found''
      then createError 404 ''NOT_FOUND'' ''Client not found'' msg
      else if str_includes msg ''Invalid'' \<or> str_includes msg ''must be''
      then createError 400 ''VALIDATION_ERROR'' ''Invalid input data'' msg
      else if str_includes msg ''already exists''
      then createError 409 ''DUPLICATE_EMAIL'' ''Email already exists'' msg
      else createError 500 ''INTERNAL_ERROR'' ''Failed to update client'' msg)"

definition updateClient_interleaved ::
  "database \<Rightarrow> database \<Rightarrow> int \<Rightarrow> jsval \<Rightarrow> client_data
     \<Rightarrow> database \<times> client option response" where
  "updateClient_interleaved seen db now i body =
     (case (case validateIdParameter i of
              Inl e \<Rightarrow> (db, Inl e)
            | Inr clientId \<Rightarrow>
                update_interleaved seen db now (JNum clientId) (extractClientData body)) of
        (db', Inr updatedClient) \<Rightarrow> (db', Json 200 updatedClient ''Client updated successfully'')
      | (db', Inl msg) \<Rightarrow> (db', Next (updateClient_catch msg)))"

definition updateClient ::
  "database \<Rightarrow> int \<Rightarrow> jsval \<Rightarrow> client_data \<Rightarrow> database \<times> client option response" where
  "updateClient db now i body = updateClient_interleaved db db now i body"

subsection \<open>\<open>deleteClient\<close>\<close>

definition deleteClient :: "database \<Rightarrow> jsval \<Rightarrow> database \<times> unit response" where
  "deleteClient db i =
     (case validateIdParameter i of
        Inl msg \<Rightarrow>
          (db, if str_includes msg ''Invalid ID''
               then Next (createError 400 ''VALIDATION_ERROR'' ''Invalid client ID'' msg)
               else Next (createError 500 ''INTERNAL_ERROR'' ''Failed to delete client'' msg))
      | Inr clientId \<Rightarrow>
          (case Client_delete db (JNum clientId) of
             (db', Inr deleted) \<Rightarrow>
               if \<not> deleted
               then (db', Next (createError 404 ''NOT_FOUND'' ''Client not found''
                                 (''No client found with ID '' @ Number_toString clientId)))
               else (db', Send 204)
           | (db', Inl msg) \<Rightarrow>
               (db', if str_includes msg ''Invalid ID''
                     then Next (createError 400 ''VALIDATION_ERROR'' ''Invalid client ID'' msg)
                     else Next (createError 500 ''INTERNAL_ERROR'' ''Failed to delete client'' msg))))"

subsection \<open>\<open>getClientStats\<close>\<close>

definition getClientStats :: "database \<Rightarrow> int \<Rightarrow> stats response" where
  "getClientStats db now =
     Json 200 (Client_getStats db now) ''Client statistics retrieved successfully''"

section \<open>The tables the API can reach\<close>

text \<open>
  \<open>reachable t db\<close>: starting from the empty table, requests to the data-access layer
  have produced the table \<open>db\<close>, the last of them at time \<open>t\<close>. Each request runs at a
  time \<open>now\<close> not before the previous one: the clock behind \<open>CURRENT_TIMESTAMP\<close> is
  taken not to run backwards. The table a request read before its write (\<open>seen\<close>) may
  be any table, which covers requests that overlap.
\<close>

inductive reachable :: "int \<Rightarrow> database \<Rightarrow> bool" where
  start: "reachable t empty_database"
| create: "reachable t db \<Longrightarrow> t \<le> now
           \<Longrightarrow> reachable now (fst (create_interleaved seen db now clientData))"
| update: "reachable t db \<Longrightarrow> t \<le> now
           \<Longrightarrow> reachable now (fst (update_interleaved seen db now i clientData))"
| delete: "reachable t db \<Longrightarrow> t \<le> now \<Longrightarrow> reachable now (fst (Client_delete db i))"

section \<open>Notions used in the statements\<close>



text \<open>The counts the API documentation of \<open>GET /clients/stats\<close> lists beside \<open>total\<close> and
  \<open>recentlyAdded\<close>: \<open>totalWithPhone\<close> and \<open>totalWithoutPhone\<close>.\<close>

definition totalWithPhone :: "database \<Rightarrow> nat" where
  "totalWithPhone db = length (filter (\<lambda>r. phone r \<noteq> None) (rows db))"

definition totalWithoutPhone :: "database \<Rightarrow> nat" where
  "totalWithoutPhone db = length (filter (\<lambda>r. phone r = None) (rows db))"

text \<open>The record a successful insert stores for validated data.\<close>

definition created_row :: "database \<Rightarrow> int \<Rightarrow> validated \<Rightarrow> client" where
  "created_row db now v =
     \<lparr>id' = next_rowid db, name = ToString (valid_name v), email = ToString (valid_email v),
      phone = bind (valid_phone v), created_at = now, updated_at = now\<rparr>"



section \<open>Sample tables and payloads for the examples\<close>

definition db_with_12 :: database where
  "db_with_12 = \<lparr>rows = [\<lparr>id' = 12, name = ''Ann Lee'', email = ''ann@ex.com'',
                           phone = None, created_at = 5, updated_at = 5\<rparr>], seq = 12\<rparr>"

definition ann :: client where
  "ann = \<lparr>id' = 1, name = ''Ann Lee'', email = ''ann@ex.com'',
           phone = Some ''(555) 123-4567'', created_at = 100, updated_at = 100\<rparr>"

definition bob :: client where
  "bob = \<lparr>id' = 2, name = ''Bob Ray'', email = ''bob@ex.com'',
           phone = None, created_at = 200, updated_at = 250\<rparr>"

definition cy :: client where
  "cy = \<lparr>id' = 3, name = ''Cy Dee'', email = ''cy@ex.com'',
          phone = None, created_at = 300, updated_at = 300\<rparr>"

definition three_clients :: database where
  "three_clients = \<lparr>rows = [ann, bob, cy], seq = 3\<rparr>"


definition empty_payload :: client_data where
  "empty_payload = \<lparr>data_name = JUndefined, data_email = JUndefined,
                     data_phone = JUndefined\<rparr>"

definition three_clients_no_phone :: database where
  "three_clients_no_phone = \<lparr>rows = [ann\<lparr>phone := None\<rparr>, bob, cy], seq = 3\<rparr>"

definition john_payload :: client_data where
  "john_payload = \<lparr>data_name = JStr ''  John Doe '', data_email = JStr '' JOHN@EX.com '',
                    data_phone = JStr ''(555) 123-4567''\<rparr>"

definition john_validated :: validated where
  "john_validated = \<lparr>valid_name = JStr ''John Doe'', valid_email = JStr ''john@ex.com'',
                      valid_phone = JStr ''(555) 123-4567''\<rparr>"

definition db_john :: database where
  "db_john = fst (Client_create empty_database 10 john_payload)"

definition phone_only :: client_data where
  "phone_only = \<lparr>data_name = JUndefined, data_email = JUndefined,
                  data_phone = JStr ''+1 555 000 1111''\<rparr>"








definition bad_name_anns_email :: client_data where
  "bad_name_anns_email = \<lparr>data_name = JStr ''J0hn'', data_email = JStr ''ann@ex.com'',
                           data_phone = JUndefined\<rparr>"

section \<open>Facts about the built-ins\<close>

text \<open>Printing a positive integer and parsing it back gives the integer, and
  \<open>parseInt\<close> reads the longest run of leading decimal digits.\<close>

lemma isDigit_char_of: "(n::nat) < 10 \<Longrightarrow> isDigit (char_of (48 + n))"
  by (simp add: isDigit_def)

lemma digitValue_char_of: "(n::nat) < 10 \<Longrightarrow> digitValue (char_of (48 + n)) = Some n"
  by (simp add: digitValue_def Let_def)

lemma isRadixDigit_10: "isRadixDigit 10 c = isDigit c"
  by (auto simp add: isRadixDigit_def digitValue_def isDigit_def Let_def)

lemma isDigit_not_ws: "isDigit c \<Longrightarrow> \<not> isWhiteSpace c"
  by (auto simp add: isDigit_def isWhiteSpace_def)

lemma isDigit_not_sign: "isDigit c \<Longrightarrow> c \<noteq> CHR ''-'' \<and> c \<noteq> CHR ''+'' \<and> c \<noteq> CHR ''x'' \<and> c \<noteq> CHR ''X''"
  by (auto simp add: isDigit_def)

lemma digitString_all: "list_all isDigit (digitString n)"
proof (induction n rule: digitString.induct)
  case (1 n)
  show ?case
  proof (cases "n < 10")
    case True
    then show ?thesis by (simp add: digitString.simps [of n] isDigit_char_of)
  next
    case False
    with 1 show ?thesis
      by (simp add: digitString.simps [of n] isDigit_char_of)
  qed
qed

lemma digitString_not_Nil: "digitString n \<noteq> []"
  by (simp add: digitString.simps [of n])

lemma mathInt_snoc:
  "mathInt R (Z @ [c]) = mathInt R Z * R + (case digitValue c of Some d \<Rightarrow> d | None \<Rightarrow> 0)"
  by (simp add: mathInt_def)

lemma mathInt_digitString: "mathInt 10 (digitString n) = n"
proof (induction n rule: digitString.induct)
  case (1 n)
  show ?case
  proof (cases "n < 10")
    case True
    then show ?thesis by (simp add: digitString.simps [of n] mathInt_def digitValue_char_of)
  next
    case False
    with 1 have "mathInt 10 (digitString (n div 10)) = n div 10" by simp
    with False show ?thesis
      by (simp add: digitString.simps [of n] mathInt_snoc digitValue_char_of)
  qed
qed

lemma mathInt_single_zero: "mathInt 10 [CHR ''0''] = 0"
  by (simp add: mathInt_def digitValue_def)

lemma takeWhile_digits:
  assumes "list_all isDigit ds" and "rest = [] \<or> \<not> isDigit (hd rest)"
  shows "takeWhile isDigit (ds @ rest) = ds"
proof -
  have "takeWhile isDigit rest = []"
    using assms(2) by (cases rest) auto
  moreover have "\<forall>x \<in> set ds. isDigit x"
    using assms(1) by (simp add: list_all_iff)
  ultimately show ?thesis by (simp add: takeWhile_append2)
qed

lemma no_hex_prefix:
  assumes "ds \<noteq> []" and "list_all isDigit ds" and "0 < mathInt 10 ds"
  shows "take 2 (ds @ rest) \<noteq> ''0x'' \<and> take 2 (ds @ rest) \<noteq> ''0X''"
proof (cases ds)
  case Nil
  with assms(1) show ?thesis by simp
next
  case (Cons d ds')
  show ?thesis
  proof (cases ds')
    case Nil
    with Cons assms(3) have "d \<noteq> CHR ''0''"
      using mathInt_single_zero by auto
    with Cons Nil show ?thesis by (cases rest) auto
  next
    case (Cons e es)
    with \<open>ds = d # ds'\<close> assms(2) have "isDigit e" by simp
    then have "e \<noteq> CHR ''x'' \<and> e \<noteq> CHR ''X''" by (simp add: isDigit_not_sign)
    with Cons \<open>ds = d # ds'\<close> show ?thesis by auto
  qed
qed

lemma parseIntString_prefix:
  assumes "ds \<noteq> []" and "list_all isDigit ds" and "rest = [] \<or> \<not> isDigit (hd rest)"
    and "0 < mathInt 10 ds"
  shows "parseIntString (ds @ rest) = Some (int (mathInt 10 ds))"
proof -
  obtain d ds' where ds: "ds = d # ds'" using assms(1) by (cases ds) auto
  with assms(2) have d: "isDigit d" by simp
  have S: "dropWhile isWhiteSpace (ds @ rest) = ds @ rest"
    using ds d by (simp add: isDigit_not_ws)
  have sign: "take 1 (ds @ rest) \<noteq> ''-'' \<and> take 1 (ds @ rest) \<noteq> ''+''"
    using ds d by (auto simp add: isDigit_not_sign)
  have hex: "take 2 (ds @ rest) \<noteq> ''0x'' \<and> take 2 (ds @ rest) \<noteq> ''0X''"
    using assms(1,2,4) by (rule no_hex_prefix)
  have Z: "takeWhile (isRadixDigit 10) (ds @ rest) = ds"
    using takeWhile_digits [OF assms(2,3)] by (simp add: isRadixDigit_10 [abs_def])
  show ?thesis
    unfolding parseIntString_def Let_def S using sign hex Z assms(1) by simp
qed

lemma parseInt_JNum: "0 < n \<Longrightarrow> parseInt (JNum n) = Some n"
  using parseIntString_prefix [of "digitString (nat n)" "[]"]
  by (simp add: parseInt_def ToString_def Number_toString_def digitString_all
      digitString_not_Nil mathInt_digitString)


lemma Client_validateId_JNum: "0 < n \<Longrightarrow> Client_validateId (JNum n) = Inr n"
  by (simp add: Client_validateId_def parseInt_JNum)

lemma invalid_id_message: "str_includes ''Invalid ID: must be a positive integer'' ''Invalid ID''"
  by simp

lemma Client_findById_JNum: "0 < n \<Longrightarrow> Client_findById db (JNum n) = Inr (select_by_id db n)"
  by (simp add: Client_findById_def Client_validateId_JNum)

lemma Client_findById_total: "\<exists>r. Client_findById db i = Inr r"
  by (auto simp add: Client_findById_def Client_validateId_def split: option.splits)

section \<open>Identifiers: invalid versus not found\<close>

lemma getClientById_parsed:
  assumes "parseIntString s = Some n" and "0 < n"
  shows "getClientById db (JStr s) =
           (case select_by_id db n of
              Some cl \<Rightarrow> Json 200 cl ''Client retrieved successfully''
            | None \<Rightarrow> Next (createError 404 ''NOT_FOUND'' ''Client not found''
                              (''No client found with ID '' @ Number_toString n)))"
  using assms
  by (simp add: getClientById_def validateIdParameter_def parseInt_def ToString_def
      Client_findById_JNum split: option.splits)

lemma getClientById_unparsed:
  assumes "parseIntString s = None \<or> (\<exists>n. parseIntString s = Some n \<and> n \<le> 0)"
  shows "getClientById db (JStr s) =
           Next (createError 400 ''VALIDATION_ERROR'' ''Invalid client ID''
                   ''Invalid ID: must be a positive integer'')"
  using assms
  by (auto simp add: getClientById_def validateIdParameter_def parseInt_def ToString_def)


lemma parseIntString_abc: "parseIntString ''abc'' = None"
  by (simp add: parseIntString_def isWhiteSpace_def isRadixDigit_def digitValue_def)



text \<open>
  C10. Identifier validation follows \<open>parseInt\<close>: a string that starts with decimal
  digits of positive value (in the exact range of a Number), followed by anything that
  is not a digit, is taken as that number, in the controller and in the model alike,
  and the request is dispatched to the record with that id (200) or to not-found (404);
  \<open>12abc\<close> is id 12. The 400 answer is given exactly when \<open>parseInt\<close> reads no positive
  integer from the string.
\<close>

theorem C10_numeric_prefix_is_the_identifier:
  assumes "ds \<noteq> []" and "list_all isDigit ds" and "rest = [] \<or> \<not> isDigit (hd rest)"
    and "0 < mathInt 10 ds" and "mathInt 10 ds < 2 ^ 53"
  shows "validateIdParameter (JStr (ds @ rest)) = Inr (int (mathInt 10 ds)) \<and>
         Client_validateId (JStr (ds @ rest)) = Inr (int (mathInt 10 ds)) \<and>
         getClientById db (JStr (ds @ rest)) =
           (case select_by_id db (int (mathInt 10 ds)) of
              Some cl \<Rightarrow> Json 200 cl ''Client retrieved successfully''
            | None \<Rightarrow> Next (createError 404 ''NOT_FOUND'' ''Client not found''
                              (''No client found with ID '' @
                               Number_toString (int (mathInt 10 ds))))) \<and>
         (http_status (getClientById db (JStr s)) = 400
            \<longleftrightarrow> (\<forall>n. parseIntString s = Some n \<longrightarrow> n \<le> 0))"
proof -
  have p: "parseIntString (ds @ rest) = Some (int (mathInt 10 ds))"
    using assms(1-4) by (rule parseIntString_prefix)
  have pos: "0 < int (mathInt 10 ds)" using assms(4) by simp
  have 1: "validateIdParameter (JStr (ds @ rest)) = Inr (int (mathInt 10 ds))"
    using p pos by (simp add: validateIdParameter_def parseInt_def ToString_def)
  have 2: "Client_validateId (JStr (ds @ rest)) = Inr (int (mathInt 10 ds))"
    using p pos by (simp add: Client_validateId_def parseInt_def ToString_def)
  have 3: "getClientById db (JStr (ds @ rest)) =
           (case select_by_id db (int (mathInt 10 ds)) of
              Some cl \<Rightarrow> Json 200 cl ''Client retrieved successfully''
            | None \<Rightarrow> Next (createError 404 ''NOT_FOUND'' ''Client not found''
                              (''No client found with ID '' @
                               Number_toString (int (mathInt 10 ds)))))"
    using p pos by (rule getClientById_parsed)
  have 4: "http_status (getClientById db (JStr s)) = 400
            \<longleftrightarrow> (\<forall>n. parseIntString s = Some n \<longrightarrow> n \<le> 0)"
  proof (cases "parseIntString s")
    case None
    then show ?thesis
      using getClientById_unparsed [of s db] by (simp add: http_status_def createError_def)
  next
    case (Some n)
    show ?thesis
    proof (cases "0 < n")
      case True
      with Some show ?thesis
        using getClientById_parsed [of s n db]
        by (auto simp add: http_status_def createError_def split: option.splits)
    next
      case False
      with Some show ?thesis
        using getClientById_unparsed [of s db]
        by (simp add: http_status_def createError_def)
    qed
  qed
  from 1 2 3 4 show ?thesis by blast
qed

theorem C10_witness:
  "validateIdParameter (JStr ''12abc'') = Inr 12 \<and>
   Client_validateId (JStr ''12abc'') = Inr 12 \<and>
   getClientById db_with_12 (JStr ''12abc'') =
     Json 200 \<lparr>id' = 12, name = ''Ann Lee'', email = ''ann@ex.com'',
               phone = None, created_at = 5, updated_at = 5\<rparr>
       ''Client retrieved successfully'' \<and>
   http_status (getClientById empty_database (JStr ''12abc'')) = 404 \<and>
   http_status (getClientById db_with_12 (JStr ''abc'')) = 400"
proof -
  have h: "''12'' \<noteq> []" "list_all isDigit ''12''" "''abc'' = [] \<or> \<not> isDigit (hd ''abc'')"
    "0 < mathInt 10 ''12''" "mathInt 10 ''12'' < 2 ^ 53"
    by (simp_all add: isDigit_def mathInt_def digitValue_def)
  have v: "mathInt 10 ''12'' = 12" by (simp add: mathInt_def digitValue_def)
  note a = C10_numeric_prefix_is_the_identifier [OF h, of db_with_12 "''abc''"]
  note b = C10_numeric_prefix_is_the_identifier [OF h, of empty_database "''abc''"]
  from a b show ?thesis
    by (simp add: v db_with_12_def empty_database_def select_by_id_def
        parseIntString_abc http_status_def createError_def)
qed

section \<open>Listing: pagination and the sort field\<close>















section \<open>Update with no fields\<close>

lemma validate_empty_payload:
  "Client_validateClientData empty_payload False =
     Inr \<lparr>valid_name = JUndefined, valid_email = JUndefined, valid_phone = JUndefined\<rparr>"
  by (simp add: Client_validateClientData_def empty_payload_def validate_name_def
      validate_email_def validate_phone_def)

lemma select_by_id_id: "select_by_id db n = Some c \<Longrightarrow> id' c = n \<and> c \<in> set (rows db)"
  by (auto simp add: select_by_id_def find_Some_iff)

lemma extract_empty_payload: "extractClientData empty_payload = empty_payload"
  by (simp add: extractClientData_def empty_payload_def)

lemma update_try_empty:
  assumes "parseInt i = Some n" and "0 < n" and "select_by_id seen n = Some c"
  shows "update_try seen db now i empty_payload = (db, Inr (Some c))"
  using assms
  by (simp add: update_try_def Client_validateId_def Client_findById_JNum
      validate_empty_payload truthy_def)

text \<open>
  C5. For the id of an existing record, an update with no fields succeeds and changes
  nothing: the model returns the record as it is stored (same id, same fields, same
  \<open>updated_at\<close>), the table is the same table afterwards, so the record is still
  present, and the handler answers 200 with that record.
\<close>

theorem C5_update_with_no_fields_is_a_no_op:
  assumes "parseInt i = Some n" and "0 < n" and "n < 2 ^ 53"
    and "select_by_id db n = Some c"
  shows "Client_update db now i empty_payload = (db, Inr (Some c)) \<and>
         updateClient db now i empty_payload =
           (db, Json 200 (Some c) ''Client updated successfully'') \<and>
         id' c = n \<and>
         select_by_id (fst (Client_update db now i empty_payload)) n = Some c"
proof -
  have 1: "Client_update db now i empty_payload = (db, Inr (Some c))"
    using update_try_empty [OF assms(1,2,4)]
    by (simp add: Client_update_def update_interleaved_def)
  have "update_interleaved db db now (JNum n) empty_payload = (db, Inr (Some c))"
    using update_try_empty [OF parseInt_JNum [OF assms(2)] assms(2,4)]
    by (simp add: update_interleaved_def)
  then have 2: "updateClient db now i empty_payload =
           (db, Json 200 (Some c) ''Client updated successfully'')"
    using assms(1,2)
    by (simp add: updateClient_def updateClient_interleaved_def validateIdParameter_def
        extract_empty_payload)
  from 1 2 select_by_id_id [OF assms(4)] assms(4) show ?thesis by simp
qed

lemma parseIntString_2: "parseIntString ''2'' = Some 2"
  by (simp add: parseIntString_def isWhiteSpace_def isRadixDigit_def digitValue_def
      mathInt_def)

theorem C5_witness:
  "Client_update three_clients 999 (JStr ''2'') empty_payload = (three_clients, Inr (Some bob)) \<and>
   updateClient three_clients 999 (JStr ''2'') empty_payload =
     (three_clients, Json 200 (Some bob) ''Client updated successfully'') \<and>
   updated_at bob = 250"
proof -
  have h: "parseInt (JStr ''2'') = Some 2" "(0::int) < 2" "(2::int) < 2 ^ 53"
    "select_by_id three_clients 2 = Some bob"
    by (simp_all add: parseInt_def ToString_def parseIntString_2 select_by_id_def
        three_clients_def ann_def bob_def)
  from C5_update_with_no_fields_is_a_no_op [OF h, of 999] show ?thesis
    by (simp add: bob_def)
qed

section \<open>Statistics\<close>

lemma getStats_counts:
  "stats_total (Client_getStats db now) = length (rows db) \<and>
   recentlyAdded (Client_getStats db now) =
     length (filter (\<lambda>r. now - 7 * 86400 \<le> created_at r) (rows db))"
  by (simp add: Client_getStats_def)

text \<open>
  C1. \<open>getStats\<close> returns the total and the number of records of the last seven days
  (and the oldest and newest creation times), and nothing about phones: a table with
  one phone number and the same table with none get the same answer, although their
  counts of records with and without a phone differ.
\<close>

theorem C1_stats_carry_no_phone_counts:
  "getClientStats three_clients 1000 =
     Json 200 \<lparr>stats_total = 3, recentlyAdded = 3, oldestCreated = Some 100,
                newestCreated = Some 300\<rparr> ''Client statistics retrieved successfully'' \<and>
   getClientStats three_clients_no_phone 1000 = getClientStats three_clients 1000 \<and>
   totalWithPhone three_clients = 1 \<and> totalWithoutPhone three_clients = 2 \<and>
   totalWithPhone three_clients_no_phone = 0 \<and> totalWithoutPhone three_clients_no_phone = 3"
  by (simp add: getClientStats_def Client_getStats_def three_clients_def
      three_clients_no_phone_def ann_def bob_def cy_def totalWithPhone_def
      totalWithoutPhone_def)

section \<open>Create\<close>

lemma js_or_empty_truthy:
  "trim (ToString (js_or v (JStr []))) \<noteq> [] \<Longrightarrow> truthy v \<and> js_or v (JStr []) = v"
  by (cases "truthy v") (simp_all add: js_or_def ToString_def trim_def)

lemma toLowerCase_Nil_iff: "toLowerCase s = [] \<longleftrightarrow> s = []"
  by (simp add: toLowerCase_def)

lemma validate_name_required:
  assumes "validate_name v True = Inr w"
  shows "w = JStr (trim (ToString v)) \<and> trim (ToString v) \<noteq> [] \<and> truthy v"
proof -
  let ?nm = "trim (ToString (js_or v (JStr [])))"
  from assms have ne: "?nm \<noteq> []" and w: "w = JStr ?nm"
    by (auto simp add: validate_name_def Let_def split: if_splits)
  from js_or_empty_truthy [OF ne] ne w show ?thesis by simp
qed

lemma validate_email_required:
  assumes "validate_email v True = Inr w"
  shows "w = JStr (toLowerCase (trim (ToString v))) \<and> toLowerCase (trim (ToString v)) \<noteq> []
         \<and> truthy v"
proof -
  let ?em = "toLowerCase (trim (ToString (js_or v (JStr []))))"
  from assms have ne: "?em \<noteq> []" and w: "w = JStr ?em"
    by (auto simp add: validate_email_def Let_def split: if_splits)
  from ne have "trim (ToString (js_or v (JStr []))) \<noteq> []" by (simp add: toLowerCase_Nil_iff)
  from js_or_empty_truthy [OF this] ne w show ?thesis by simp
qed

lemma validate_phone_bind:
  assumes "validate_phone v = Inr w"
  shows "w = JUndefined \<or> w = JNull \<or> (\<exists>s. w = JStr s)"
  using assms by (auto simp add: validate_phone_def Let_def split: if_splits)

lemma validated_required:
  assumes "Client_validateClientData data True = Inr v"
  shows "valid_name v = JStr (trim (ToString (data_name data))) \<and>
         trim (ToString (data_name data)) \<noteq> [] \<and> truthy (data_name data) \<and>
         valid_email v = JStr (toLowerCase (trim (ToString (data_email data)))) \<and>
         toLowerCase (trim (ToString (data_email data))) \<noteq> [] \<and> truthy (data_email data)"
proof -
  from assms obtain vn ve vp where
    n: "validate_name (data_name data) True = Inr vn" and
    e: "validate_email (data_email data) True = Inr ve" and
    v: "v = \<lparr>valid_name = vn, valid_email = ve, valid_phone = vp\<rparr>"
    by (auto simp add: Client_validateClientData_def split: sum.splits)
  from validate_name_required [OF n] validate_email_required [OF e] v show ?thesis by simp
qed

lemma fold_max_ge: "(a::int) \<le> fold max xs a \<and> (\<forall>x \<in> set xs. x \<le> fold max xs a)"
proof (induction xs arbitrary: a)
  case Nil
  show ?case by simp
next
  case (Cons y ys)
  from Cons [of "max y a"] show ?case by auto
qed

lemma next_rowid_fresh: "0 < next_rowid db \<and> (\<forall>r \<in> set (rows db). id' r < next_rowid db)"
proof -
  have "0 \<le> fold max (map id' (rows db)) 0"
    and "\<forall>x \<in> set (map id' (rows db)). x \<le> fold max (map id' (rows db)) 0"
    using fold_max_ge [of 0 "map id' (rows db)"] by blast+
  then show ?thesis by (auto simp add: next_rowid_def)
qed

lemma find_append_fresh:
  assumes "\<forall>r \<in> set xs. \<not> P r" and "P x"
  shows "find P (xs @ [x]) = Some x"
  using assms by (induction xs) auto

lemma sql_insert_ok:
  assumes "\<forall>r \<in> set (rows db). email r \<noteq> e"
  shows "sql_insert db now (Some n) (Some e) ph =
           Inr (db\<lparr>rows := rows db @
                  [\<lparr>id' = next_rowid db, name = n, email = e, phone = ph,
                    created_at = now, updated_at = now\<rparr>],
                 seq := next_rowid db\<rparr>, next_rowid db)"
  using assms by (auto simp add: sql_insert_def Let_def)

lemma sql_insert_unique:
  assumes "\<exists>r \<in> set (rows db). email r = e"
  shows "sql_insert db now (Some n) (Some e) ph = Inl UNIQUE_failed"
  using assms by (auto simp add: sql_insert_def)

lemma select_inserted:
  "select_by_id (db\<lparr>rows := rows db @ [c\<lparr>id' := next_rowid db\<rparr>], seq := s\<rparr>) (next_rowid db)
     = Some (c\<lparr>id' := next_rowid db\<rparr>)"
proof -
  have "\<forall>r \<in> set (rows db). \<not> id' r = next_rowid db"
    using next_rowid_fresh [of db] by auto
  then show ?thesis
    by (simp add: select_by_id_def find_append_fresh)
qed

lemma checkEmailUniqueness_create:
  "Client_checkEmailUniqueness seen (JStr e) None =
     (if \<exists>r \<in> set (rows seen). email r = e then Inl ''Email address already exists''
      else Inr ())"
proof -
  have "find (\<lambda>r. Some e = Some (email r)) (rows seen) = None
          \<longleftrightarrow> \<not> (\<exists>r \<in> set (rows seen). email r = e)"
    by (auto simp add: find_None_iff)
  then show ?thesis
    by (auto simp add: Client_checkEmailUniqueness_def bind_def Let_def split: option.splits)
qed

lemma create_try_ok:
  assumes v: "Client_validateClientData data True = Inr v"
    and s: "\<forall>r \<in> set (rows seen). email r \<noteq> ToString (valid_email v)"
    and d: "\<forall>r \<in> set (rows db). email r \<noteq> ToString (valid_email v)"
  shows "create_try seen db now data =
           (db\<lparr>rows := rows db @ [created_row db now v], seq := next_rowid db\<rparr>,
            Inr (created_row db now v))"
proof -
  from validated_required [OF v] obtain nm em where
    nm: "valid_name v = JStr nm" and em: "valid_email v = JStr em" by blast
  have pre: "Client_checkEmailUniqueness seen (JStr em) None = Inr ()"
    using s em by (simp add: checkEmailUniqueness_create ToString_def)
  have ins: "sql_insert db now (Some nm) (Some em) (bind (valid_phone v)) =
           Inr (db\<lparr>rows := rows db @
                  [\<lparr>id' = next_rowid db, name = nm, email = em, phone = bind (valid_phone v),
                    created_at = now, updated_at = now\<rparr>],
                 seq := next_rowid db\<rparr>, next_rowid db)"
    using d em by (intro sql_insert_ok) (simp add: ToString_def)
  have row: "created_row db now v =
      \<lparr>id' = next_rowid db, name = nm, email = em, phone = bind (valid_phone v),
       created_at = now, updated_at = now\<rparr>"
    by (simp add: created_row_def nm em ToString_def)
  have pos: "0 < next_rowid db" using next_rowid_fresh [of db] by simp
  have sel: "select_by_id (db\<lparr>rows := rows db @ [created_row db now v], seq := next_rowid db\<rparr>)
               (next_rowid db) = Some (created_row db now v)"
    using select_inserted [where db = db and c = "created_row db now v" and s = "next_rowid db"]
    by (simp add: created_row_def)
  show ?thesis
    unfolding create_try_def
    by (simp add: v nm em pre bind_def [of "JStr nm"] bind_def [of "JStr em"] ins
        Client_findById_JNum [OF pos] flip: row, simp add: sel)
qed

lemma required_fields_ok:
  assumes "Client_validateClientData data True = Inr v"
  shows "validateRequiredFields data = Inr ()"
proof -
  from validated_required [OF assms] have
    n: "truthy (data_name data)" "trim (ToString (data_name data)) \<noteq> []" and
    e: "truthy (data_email data)" "trim (ToString (data_email data)) \<noteq> []"
    by (simp_all add: toLowerCase_Nil_iff)
  have "\<not> field_missing (data_name data)"
    using n by (cases "data_name data") (simp_all add: field_missing_def ToString_def)
  moreover have "\<not> field_missing (data_email data)"
    using e by (cases "data_email data") (simp_all add: field_missing_def ToString_def)
  ultimately show ?thesis by (simp add: validateRequiredFields_def)
qed

lemma extractClientData_id: "extractClientData body = body"
  by (simp add: extractClientData_def)

text \<open>
  C7. A creation payload is valid when it passes validation and its normalised email is
  not yet stored. Then create succeeds, and the record it returns has a generated id
  that is positive and belongs to no earlier record, \<open>created_at\<close> and \<open>updated_at\<close>
  both equal to the time of the insert, and the email of the payload trimmed and in
  lower case; it is the record stored under that id, and the handler answers 201 with
  it.
\<close>

theorem C7_created_record:
  assumes "Client_validateClientData data True = Inr v"
    and "\<forall>r \<in> set (rows db). email r \<noteq> ToString (valid_email v)"
  shows "\<exists>db' c. Client_create db now data = (db', Inr c) \<and>
           createClient db now data = (db', Json 201 c ''Client created successfully'') \<and>
           0 < id' c \<and> (\<forall>r \<in> set (rows db). id' r \<noteq> id' c) \<and>
           created_at c = updated_at c \<and> created_at c = now \<and>
           email c = toLowerCase (trim (ToString (data_email data))) \<and>
           name c = trim (ToString (data_name data)) \<and>
           select_by_id db' (id' c) = Some c"
proof -
  let ?c = "created_row db now v"
  let ?db = "db\<lparr>rows := rows db @ [?c], seq := next_rowid db\<rparr>"
  have t: "create_try db db now data = (?db, Inr ?c)"
    using assms(1,2,2) by (rule create_try_ok)
  then have 1: "Client_create db now data = (?db, Inr ?c)"
    by (simp add: Client_create_def create_interleaved_def)
  then have 2: "createClient db now data = (?db, Json 201 ?c ''Client created successfully'')"
    by (simp add: createClient_def createClient_interleaved_def extractClientData_id
        required_fields_ok [OF assms(1)] Client_create_def)
  have 3: "0 < id' ?c \<and> (\<forall>r \<in> set (rows db). id' r \<noteq> id' ?c)"
    using next_rowid_fresh [of db] by (auto simp add: created_row_def)
  have 4: "created_at ?c = updated_at ?c \<and> created_at ?c = now"
    by (simp add: created_row_def)
  have 5: "email ?c = toLowerCase (trim (ToString (data_email data))) \<and>
           name ?c = trim (ToString (data_name data))"
    using validated_required [OF assms(1)] by (simp add: created_row_def ToString_def)
  have 6: "select_by_id ?db (id' ?c) = Some ?c"
    using select_inserted [where db = db and c = ?c and s = "next_rowid db"] by (simp add: created_row_def)
  from 1 2 3 4 5 6 show ?thesis by blast
qed

lemma validate_john: "Client_validateClientData john_payload True = Inr john_validated"
  by code_simp

lemma normalise_john: "toLowerCase (trim (ToString (data_email john_payload))) = ''john@ex.com''"
  by code_simp

theorem C7_witness:
  "\<exists>db' c. createClient three_clients 500 john_payload =
              (db', Json 201 c ''Client created successfully'') \<and>
           0 < id' c \<and> created_at c = updated_at c \<and> email c = ''john@ex.com''"
proof -
  have h: "\<forall>r \<in> set (rows three_clients). email r \<noteq> ToString (valid_email john_validated)"
    by (simp add: three_clients_def john_validated_def ToString_def ann_def bob_def cy_def)
  from C7_created_record [OF validate_john h, of 500] show ?thesis
    by (auto simp add: normalise_john)
qed

section \<open>What a request can write\<close>

lemma validated_fields:
  assumes "Client_validateClientData data requireAll = Inr v"
  shows "(valid_name v = JUndefined \<or> (\<exists>nm. valid_name v = JStr nm \<and> nm \<noteq> [])) \<and>
         (valid_email v = JUndefined \<or> (\<exists>em. valid_email v = JStr em \<and> em \<noteq> []))"
proof -
  from assms obtain vn ve vp where
    n: "validate_name (data_name data) requireAll = Inr vn" and
    e: "validate_email (data_email data) requireAll = Inr ve" and
    v: "v = \<lparr>valid_name = vn, valid_email = ve, valid_phone = vp\<rparr>"
    by (auto simp add: Client_validateClientData_def split: sum.splits)
  from n have "vn = JUndefined \<or> (\<exists>nm. vn = JStr nm \<and> nm \<noteq> [])"
    by (auto simp add: validate_name_def Let_def split: if_splits)
  moreover from e have "ve = JUndefined \<or> (\<exists>em. ve = JStr em \<and> em \<noteq> [])"
    by (auto simp add: validate_email_def Let_def split: if_splits)
  ultimately show ?thesis using v by simp
qed

lemma create_try_writes:
  "fst (create_try seen db now data) = db \<or>
   (\<exists>v. Client_validateClientData data True = Inr v \<and>
        (\<forall>r \<in> set (rows db). email r \<noteq> ToString (valid_email v)) \<and>
        fst (create_try seen db now data) =
          db\<lparr>rows := rows db @ [created_row db now v], seq := next_rowid db\<rparr>)"
proof (cases "Client_validateClientData data True")
  case (Inl e)
  then show ?thesis by (simp add: create_try_def)
next
  case (Inr v)
  from validated_required [OF Inr] obtain nm em where
    nm: "valid_name v = JStr nm" and em: "valid_email v = JStr em" by blast
  have row: "created_row db now v =
      \<lparr>id' = next_rowid db, name = nm, email = em, phone = bind (valid_phone v),
       created_at = now, updated_at = now\<rparr>"
    by (simp add: created_row_def nm em ToString_def)
  show ?thesis
  proof (cases "Client_checkEmailUniqueness seen (valid_email v) None")
    case (Inl e)
    with Inr show ?thesis by (simp add: create_try_def)
  next
    case pre: (Inr u)
    show ?thesis
    proof (cases "\<exists>r \<in> set (rows db). email r = em")
      case True
      then have "sql_insert db now (Some nm) (Some em) (bind (valid_phone v)) = Inl UNIQUE_failed"
        by (rule sql_insert_unique)
      with Inr pre nm em show ?thesis
        by (simp add: create_try_def bind_def [of "JStr nm"] bind_def [of "JStr em"])
    next
      case False
      then have "\<forall>r \<in> set (rows db). email r \<noteq> em" by simp
      from sql_insert_ok [OF this, of now nm "bind (valid_phone v)"]
      have "sql_insert db now (Some nm) (Some em) (bind (valid_phone v)) =
              Inr (db\<lparr>rows := rows db @ [created_row db now v], seq := next_rowid db\<rparr>,
                   next_rowid db)"
        by (simp add: row)
      with Inr pre nm em have
        "fst (create_try seen db now data) =
           db\<lparr>rows := rows db @ [created_row db now v], seq := next_rowid db\<rparr>"
        by (simp add: create_try_def bind_def [of "JStr nm"] bind_def [of "JStr em"]
            split: sum.splits option.splits)
      with Inr False em show ?thesis by (simp add: ToString_def)
    qed
  qed
qed

lemma create_interleaved_fst:
  "fst (create_interleaved seen db now data) = fst (create_try seen db now data)"
  by (simp add: create_interleaved_def split: prod.splits sum.splits)

lemma update_interleaved_fst:
  "fst (update_interleaved seen db now i data) = fst (update_try seen db now i data)"
  by (simp add: update_interleaved_def split: prod.splits sum.splits)

lemma update_try_writes:
  "fst (update_try seen db now i data) = db \<or>
   (\<exists>v n. Client_validateClientData data False = Inr v \<and>
      sql_update db now (valid_name v) (valid_email v) (valid_phone v) n =
        Inr (fst (update_try seen db now i data)))"
  by (auto simp add: update_try_def split: sum.splits option.splits if_splits)

lemma sql_update_rows:
  assumes "sql_update db now nm em ph n = Inr db'"
  shows "db' = db \<or>
         db' = db\<lparr>rows := map (\<lambda>r. if id' r = n
                    then update_clients_updated_at now (set_columns nm em ph now r)
                    else r) (rows db)\<rparr>"
  using assms by (auto simp add: sql_update_def split: if_splits)

lemma sql_update_unique:
  assumes "sql_update db now nm em ph n = Inr db'" and "db' \<noteq> db"
  shows "\<forall>r \<in> set (rows db). id' r \<noteq> n \<longrightarrow> bind em \<noteq> Some (email r)"
  using assms by (auto simp add: sql_update_def split: if_splits)

lemma set_columns_keeps:
  "id' (set_columns nm em ph now r) = id' r"
  "created_at (set_columns nm em ph now r) = created_at r"
  "updated_at (set_columns nm em ph now r) = now"
  "name (set_columns nm em ph now r) = (case bind nm of Some n \<Rightarrow> n | None \<Rightarrow> name r)"
  "email (set_columns nm em ph now r) = (case bind em of Some e \<Rightarrow> e | None \<Rightarrow> email r)"
  by (simp_all add: set_columns_def Let_def split: option.splits)

lemma trigger_keeps:
  "id' (update_clients_updated_at now r) = id' r"
  "created_at (update_clients_updated_at now r) = created_at r"
  "updated_at (update_clients_updated_at now r) = now"
  "name (update_clients_updated_at now r) = name r"
  "email (update_clients_updated_at now r) = email r"
  by (simp_all add: update_clients_updated_at_def)

lemma delete_rows: "set (rows (fst (Client_delete db i))) \<subseteq> set (rows db)"
  by (auto simp add: Client_delete_def sql_delete_def split: sum.splits option.splits)

text \<open>An invariant of the rows that the insert of validated data establishes and the
  update with validated data keeps holds in every reachable table.\<close>

lemma reachable_invariant:
  assumes r: "reachable t db"
    and ins: "\<And>db now v data. Client_validateClientData data True = Inr v
                \<Longrightarrow> P now (created_row db now v)"
    and upd: "\<And>now v data r t. Client_validateClientData data False = Inr v \<Longrightarrow> P t r \<Longrightarrow> t \<le> now
                \<Longrightarrow> P now (update_clients_updated_at now
                            (set_columns (valid_name v) (valid_email v) (valid_phone v) now r))"
    and mono: "\<And>t now r. P t r \<Longrightarrow> t \<le> now \<Longrightarrow> P now r"
  shows "\<forall>r \<in> set (rows db). P t r"
  using r
proof (induction rule: reachable.induct)
  case (start t)
  show ?case by (simp add: empty_database_def)
next
  case (create t db now seen clientData)
  from create.IH create.hyps(2) have old: "\<forall>r \<in> set (rows db). P now r"
    using mono by blast
  from create_try_writes [of seen db now clientData] show ?case
  proof
    assume "fst (create_try seen db now clientData) = db"
    with old show ?thesis by (simp add: create_interleaved_fst)
  next
    assume "\<exists>v. Client_validateClientData clientData True = Inr v \<and>
        (\<forall>r \<in> set (rows db). email r \<noteq> ToString (valid_email v)) \<and>
        fst (create_try seen db now clientData) =
          db\<lparr>rows := rows db @ [created_row db now v], seq := next_rowid db\<rparr>"
    then obtain v where v: "Client_validateClientData clientData True = Inr v"
      and w: "fst (create_try seen db now clientData) =
          db\<lparr>rows := rows db @ [created_row db now v], seq := next_rowid db\<rparr>" by blast
    from ins [OF v] old show ?thesis by (simp add: create_interleaved_fst w)
  qed
next
  case (update t db now seen i clientData)
  from update.IH update.hyps(2) have old: "\<forall>r \<in> set (rows db). P now r"
    using mono by blast
  from update_try_writes [of seen db now i clientData] show ?case
  proof
    assume "fst (update_try seen db now i clientData) = db"
    with old show ?thesis by (simp add: update_interleaved_fst)
  next
    assume "\<exists>v n. Client_validateClientData clientData False = Inr v \<and>
      sql_update db now (valid_name v) (valid_email v) (valid_phone v) n =
        Inr (fst (update_try seen db now i clientData))"
    then obtain v n where v: "Client_validateClientData clientData False = Inr v"
      and w: "sql_update db now (valid_name v) (valid_email v) (valid_phone v) n =
        Inr (fst (update_try seen db now i clientData))" by blast
    from sql_update_rows [OF w] show ?thesis
    proof
      assume "fst (update_try seen db now i clientData) = db"
      with old show ?thesis by (simp add: update_interleaved_fst)
    next
      assume e: "fst (update_try seen db now i clientData) =
         db\<lparr>rows := map (\<lambda>r. if id' r = n
                    then update_clients_updated_at now
                           (set_columns (valid_name v) (valid_email v) (valid_phone v) now r)
                    else r) (rows db)\<rparr>"
      have "\<forall>r \<in> set (rows db). P now (if id' r = n
                    then update_clients_updated_at now
                           (set_columns (valid_name v) (valid_email v) (valid_phone v) now r)
                    else r)"
        using old update.IH update.hyps(2) upd [OF v] by auto
      then show ?thesis by (auto simp add: update_interleaved_fst e)
    qed
  qed
next
  case (delete t db now i)
  from delete.IH delete.hyps(2) have old: "\<forall>r \<in> set (rows db). P now r"
    using mono by blast
  with delete_rows [of db i] show ?case by blast
qed

section \<open>Unique ids and emails\<close>

lemma distinct_after_update:
  assumes "distinct (map id' xs)" and "distinct (map email xs)"
    and "\<forall>r. id' r \<noteq> n \<longrightarrow> g r = r"
    and "\<forall>r. id' (g r) = id' r"
    and "(\<forall>r. email (g r) = email r)
         \<or> ((\<forall>r. id' r = n \<longrightarrow> email (g r) = e) \<and> (\<forall>r \<in> set xs. id' r \<noteq> n \<longrightarrow> email r \<noteq> e))"
  shows "distinct (map id' (map g xs)) \<and> distinct (map email (map g xs))"
proof -
  have ids: "map id' (map g xs) = map id' xs" using assms(4) by simp
  from assms(5) have em: "distinct (map email (map g xs))"
  proof
    assume "\<forall>r. email (g r) = email r"
    then have m: "map email (map g xs) = map email xs" by simp
    show ?thesis unfolding m by (rule assms(2))
  next
    assume a: "(\<forall>r. id' r = n \<longrightarrow> email (g r) = e) \<and> (\<forall>r \<in> set xs. id' r \<noteq> n \<longrightarrow> email r \<noteq> e)"
    from assms(1,2) a show ?thesis
    proof (induction xs)
      case Nil
      show ?case by simp
    next
      case (Cons x xs)
      from Cons.prems have ih: "distinct (map email (map g xs))"
        by (intro Cons.IH) auto
      have "email (g x) \<notin> set (map email (map g xs))"
      proof (cases "id' x = n")
        case True
        from Cons.prems(1) have "id' x \<notin> id' ` set xs" by simp
        with True have others: "\<forall>r \<in> set xs. id' r \<noteq> n" by blast
        then have "\<forall>r \<in> set xs. g r = r \<and> email r \<noteq> e"
          using assms(3) Cons.prems(3) by auto
        moreover have "email (g x) = e" using True Cons.prems(3) by simp
        ultimately show ?thesis by auto
      next
        case False
        then have gx: "g x = x" and xe: "email x \<noteq> e"
          using assms(3) Cons.prems(3) by auto
        have "\<forall>r \<in> set xs. email (g r) \<noteq> email x"
        proof
          fix r assume r: "r \<in> set xs"
          show "email (g r) \<noteq> email x"
          proof (cases "id' r = n")
            case True
            with Cons.prems(3) have "email (g r) = e" by simp
            with xe show ?thesis by simp
          next
            case False
            with assms(3) have "g r = r" by simp
            moreover from Cons.prems(2) have "email x \<notin> email ` set xs" by simp
            with r have "email r \<noteq> email x" by (metis imageI)
            ultimately show ?thesis by simp
          qed
        qed
        with gx show ?thesis by auto
      qed
      with ih show ?case by simp
    qed
  qed
  have "distinct (map id' (map g xs))" unfolding ids by (rule assms(1))
  with em show ?thesis by (rule conjI [rotated])
qed

lemma reachable_unique:
  assumes "reachable t db"
  shows "distinct (map id' (rows db)) \<and> distinct (map email (rows db))"
  using assms
proof (induction rule: reachable.induct)
  case (start t)
  show ?case by (simp add: empty_database_def)
next
  case (create t db now seen clientData)
  from create_try_writes [of seen db now clientData] show ?case
  proof
    assume "fst (create_try seen db now clientData) = db"
    with create.IH show ?thesis by (simp add: create_interleaved_fst)
  next
    assume "\<exists>v. Client_validateClientData clientData True = Inr v \<and>
        (\<forall>r \<in> set (rows db). email r \<noteq> ToString (valid_email v)) \<and>
        fst (create_try seen db now clientData) =
          db\<lparr>rows := rows db @ [created_row db now v], seq := next_rowid db\<rparr>"
    then obtain v :: validated where
      f: "\<forall>r \<in> set (rows db). email r \<noteq> ToString (valid_email v)" and
      w: "fst (create_try seen db now clientData) =
          db\<lparr>rows := rows db @ [created_row db now v], seq := next_rowid db\<rparr>" by blast
    have "id' (created_row db now v) \<notin> set (map id' (rows db))"
      using next_rowid_fresh [of db] by (auto simp add: created_row_def)
    moreover have "email (created_row db now v) \<notin> set (map email (rows db))"
      using f by (auto simp add: created_row_def)
    ultimately show ?thesis
      using create.IH by (simp add: create_interleaved_fst w)
  qed
next
  case (update t db now seen i clientData)
  from update_try_writes [of seen db now i clientData] show ?case
  proof
    assume "fst (update_try seen db now i clientData) = db"
    with update.IH show ?thesis by (simp add: update_interleaved_fst)
  next
    assume "\<exists>v n. Client_validateClientData clientData False = Inr v \<and>
      sql_update db now (valid_name v) (valid_email v) (valid_phone v) n =
        Inr (fst (update_try seen db now i clientData))"
    then obtain v :: validated and n where
      w: "sql_update db now (valid_name v) (valid_email v) (valid_phone v) n =
        Inr (fst (update_try seen db now i clientData))" by blast
    let ?g = "\<lambda>r. if id' r = n
                    then update_clients_updated_at now
                           (set_columns (valid_name v) (valid_email v) (valid_phone v) now r)
                    else r"
    show ?thesis
    proof (cases "fst (update_try seen db now i clientData) = db")
      case True
      with update.IH show ?thesis by (simp add: update_interleaved_fst)
    next
      case False
      with sql_update_rows [OF w] have e: "fst (update_try seen db now i clientData) =
         db\<lparr>rows := map ?g (rows db)\<rparr>" by blast
      from sql_update_unique [OF w False]
      have u: "\<forall>r \<in> set (rows db). id' r \<noteq> n \<longrightarrow> bind (valid_email v) \<noteq> Some (email r)" .
      have c: "(\<forall>r. email (?g r) = email r)
         \<or> ((\<forall>r. id' r = n \<longrightarrow> email (?g r) = ToString (valid_email v))
             \<and> (\<forall>r \<in> set (rows db). id' r \<noteq> n \<longrightarrow> email r \<noteq> ToString (valid_email v)))"
      proof (cases "bind (valid_email v)")
        case None
        then show ?thesis by (simp add: trigger_keeps set_columns_keeps)
      next
        case (Some e)
        then have "ToString (valid_email v) = e"
          by (cases "valid_email v") (simp_all add: bind_def ToString_def)
        with Some u show ?thesis by (auto simp add: trigger_keeps set_columns_keeps)
      qed
      have "distinct (map id' (map ?g (rows db))) \<and> distinct (map email (map ?g (rows db)))"
        using update.IH c
        by (intro distinct_after_update [where n = n and e = "ToString (valid_email v)"])
           (simp_all add: trigger_keeps set_columns_keeps)
      then show ?thesis by (simp add: update_interleaved_fst e)
    qed
  qed
next
  case (delete t db now i)
  have "rows (fst (Client_delete db i)) = rows db
        \<or> (\<exists>n. rows (fst (Client_delete db i)) = filter (\<lambda>r. id' r \<noteq> n) (rows db))"
    by (auto simp add: Client_delete_def sql_delete_def split: sum.splits option.splits)
  with delete.IH show ?case by (auto simp add: distinct_map_filter)
qed

section \<open>Empty names and emails\<close>

lemma validate_name_blank:
  assumes "v \<noteq> JUndefined" and "trim (ToString (js_or v (JStr []))) = []"
  shows "validate_name v False = Inr JUndefined"
  using assms by (simp add: validate_name_def)

lemma validate_email_blank:
  assumes "v \<noteq> JUndefined" and "trim (ToString (js_or v (JStr []))) = []"
  shows "validate_email v False = Inr JUndefined"
  using assms by (simp add: validate_email_def toLowerCase_def)

lemma validate_absent:
  "validate_name JUndefined False = Inr JUndefined"
  "validate_email JUndefined False = Inr JUndefined"
  by (simp_all add: validate_name_def validate_email_def)

lemma validate_blank_name:
  assumes "v \<noteq> JUndefined" and "trim (ToString (js_or v (JStr []))) = []"
  shows "Client_validateClientData (data\<lparr>data_name := v\<rparr>) False =
         Client_validateClientData (data\<lparr>data_name := JUndefined\<rparr>) False"
  by (simp add: Client_validateClientData_def validate_name_blank [OF assms] validate_absent
      cong: sum.case_cong)

lemma validate_blank_email:
  assumes "v \<noteq> JUndefined" and "trim (ToString (js_or v (JStr []))) = []"
  shows "Client_validateClientData (data\<lparr>data_email := v\<rparr>) False =
         Client_validateClientData (data\<lparr>data_email := JUndefined\<rparr>) False"
  by (simp add: Client_validateClientData_def validate_email_blank [OF assms] validate_absent
      cong: sum.case_cong)

lemma update_try_cong:
  assumes "Client_validateClientData d1 False = Client_validateClientData d2 False"
  shows "update_try seen db now i d1 = update_try seen db now i d2"
  unfolding update_try_def assms by (rule refl)

lemma update_interleaved_cong:
  assumes "Client_validateClientData d1 False = Client_validateClientData d2 False"
  shows "update_interleaved seen db now i d1 = update_interleaved seen db now i d2"
  unfolding update_interleaved_def update_try_cong [OF assms] by (rule refl)

lemma updateClient_cong:
  assumes "Client_validateClientData d1 False = Client_validateClientData d2 False"
  shows "updateClient db now i d1 = updateClient db now i d2"
  unfolding updateClient_def updateClient_interleaved_def extractClientData_id
    update_interleaved_cong [OF assms] by (rule refl)

lemma update_keeps_column:
  "(\<forall>v. Client_validateClientData data False = Inr v \<longrightarrow> valid_name v = JUndefined)
     \<Longrightarrow> map name (rows (fst (update_try seen db now i data))) = map name (rows db)"
  "(\<forall>v. Client_validateClientData data False = Inr v \<longrightarrow> valid_email v = JUndefined)
     \<Longrightarrow> map email (rows (fst (update_try seen db now i data))) = map email (rows db)"
proof -
  assume a: "\<forall>v. Client_validateClientData data False = Inr v \<longrightarrow> valid_name v = JUndefined"
  from update_try_writes [of seen db now i data]
  show "map name (rows (fst (update_try seen db now i data))) = map name (rows db)"
  proof
    assume "fst (update_try seen db now i data) = db"
    then show ?thesis by simp
  next
    assume "\<exists>v n. Client_validateClientData data False = Inr v \<and>
      sql_update db now (valid_name v) (valid_email v) (valid_phone v) n =
        Inr (fst (update_try seen db now i data))"
    then obtain v n where v: "Client_validateClientData data False = Inr v"
      and w: "sql_update db now (valid_name v) (valid_email v) (valid_phone v) n =
        Inr (fst (update_try seen db now i data))" by blast
    from a v have u: "valid_name v = JUndefined" by simp
    from sql_update_rows [OF w] show ?thesis
      by (auto simp add: u set_columns_keeps trigger_keeps bind_def)
  qed
next
  assume a: "\<forall>v. Client_validateClientData data False = Inr v \<longrightarrow> valid_email v = JUndefined"
  from update_try_writes [of seen db now i data]
  show "map email (rows (fst (update_try seen db now i data))) = map email (rows db)"
  proof
    assume "fst (update_try seen db now i data) = db"
    then show ?thesis by simp
  next
    assume "\<exists>v n. Client_validateClientData data False = Inr v \<and>
      sql_update db now (valid_name v) (valid_email v) (valid_phone v) n =
        Inr (fst (update_try seen db now i data))"
    then obtain v n where v: "Client_validateClientData data False = Inr v"
      and w: "sql_update db now (valid_name v) (valid_email v) (valid_phone v) n =
        Inr (fst (update_try seen db now i data))" by blast
    from a v have u: "valid_email v = JUndefined" by simp
    from sql_update_rows [OF w] show ?thesis
      by (auto simp add: u set_columns_keeps trigger_keeps bind_def)
  qed
qed

lemma blank_name_validated:
  assumes "v \<noteq> JUndefined" and "trim (ToString (js_or v (JStr []))) = []"
  shows "\<forall>w. Client_validateClientData (data\<lparr>data_name := v\<rparr>) False = Inr w
             \<longrightarrow> valid_name w = JUndefined"
  by (auto simp add: Client_validateClientData_def validate_name_blank [OF assms]
      split: sum.splits)

lemma blank_email_validated:
  assumes "v \<noteq> JUndefined" and "trim (ToString (js_or v (JStr []))) = []"
  shows "\<forall>w. Client_validateClientData (data\<lparr>data_email := v\<rparr>) False = Inr w
             \<longrightarrow> valid_email w = JUndefined"
  by (auto simp add: Client_validateClientData_def validate_email_blank [OF assms]
      split: sum.splits)

lemma reachable_nonempty:
  assumes "reachable t db"
  shows "\<forall>r \<in> set (rows db). name r \<noteq> [] \<and> email r \<noteq> []"
proof (rule reachable_invariant [OF assms, where P = "\<lambda>t (r::client). name r \<noteq> [] \<and> email r \<noteq> []"])
  fix db now v data
  assume "Client_validateClientData data True = Inr v"
  from validated_required [OF this]
  show "name (created_row db now v) \<noteq> [] \<and> email (created_row db now v) \<noteq> []"
    by (simp add: created_row_def ToString_def)
next
  fix now v data and r :: client and t :: int
  assume v: "Client_validateClientData data False = Inr v"
    and r: "name r \<noteq> [] \<and> email r \<noteq> []"
  let ?r = "update_clients_updated_at now
              (set_columns (valid_name v) (valid_email v) (valid_phone v) now r)"
  from validated_fields [OF v] r
  show "name ?r \<noteq> [] \<and> email ?r \<noteq> []"
    by (auto simp add: trigger_keeps set_columns_keeps bind_def)
next
  fix t now :: int and r :: client
  assume "name r \<noteq> [] \<and> email r \<noteq> []"
  then show "name r \<noteq> [] \<and> email r \<noteq> []" .
qed

text \<open>
  C9. In an update, a name or an email that is given but trims to the empty string (the
  empty string, blanks, \<open>null\<close>) is validated as if the field were absent: validation
  does not fail on it and yields \<open>undefined\<close> for the field, the whole update (model and
  handler) behaves as for the payload without the field, and the stored column keeps
  its value in every row. Every table reachable by create, update and delete requests
  has a non-empty name and a non-empty email in every row.
\<close>

theorem C9_blank_name_or_email_is_not_provided:
  assumes "v \<noteq> JUndefined" and "trim (ToString (js_or v (JStr []))) = []"
    and "reachable t db"
  shows "validate_name v False = Inr JUndefined \<and>
         validate_email v False = Inr JUndefined \<and>
         Client_validateClientData (data\<lparr>data_name := v\<rparr>) False =
           Client_validateClientData (data\<lparr>data_name := JUndefined\<rparr>) False \<and>
         Client_validateClientData (data\<lparr>data_email := v\<rparr>) False =
           Client_validateClientData (data\<lparr>data_email := JUndefined\<rparr>) False \<and>
         Client_update db now i (data\<lparr>data_name := v\<rparr>) =
           Client_update db now i (data\<lparr>data_name := JUndefined\<rparr>) \<and>
         Client_update db now i (data\<lparr>data_email := v\<rparr>) =
           Client_update db now i (data\<lparr>data_email := JUndefined\<rparr>) \<and>
         updateClient db now i (data\<lparr>data_name := v\<rparr>) =
           updateClient db now i (data\<lparr>data_name := JUndefined\<rparr>) \<and>
         updateClient db now i (data\<lparr>data_email := v\<rparr>) =
           updateClient db now i (data\<lparr>data_email := JUndefined\<rparr>) \<and>
         map name (rows (fst (Client_update db now i (data\<lparr>data_name := v\<rparr>))))
           = map name (rows db) \<and>
         map email (rows (fst (Client_update db now i (data\<lparr>data_email := v\<rparr>))))
           = map email (rows db) \<and>
         (\<forall>r \<in> set (rows db). name r \<noteq> [] \<and> email r \<noteq> [])"
proof -
  note n = validate_blank_name [OF assms(1,2), of data]
  note e = validate_blank_email [OF assms(1,2), of data]
  have 1: "Client_update db now i (data\<lparr>data_name := v\<rparr>) =
           Client_update db now i (data\<lparr>data_name := JUndefined\<rparr>)"
    unfolding Client_update_def by (rule update_interleaved_cong [OF n])
  have 2: "Client_update db now i (data\<lparr>data_email := v\<rparr>) =
           Client_update db now i (data\<lparr>data_email := JUndefined\<rparr>)"
    unfolding Client_update_def by (rule update_interleaved_cong [OF e])
  have 3: "map name (rows (fst (Client_update db now i (data\<lparr>data_name := v\<rparr>))))
           = map name (rows db)"
    unfolding Client_update_def update_interleaved_fst
    by (rule update_keeps_column(1) [OF blank_name_validated [OF assms(1,2)]])
  have 4: "map email (rows (fst (Client_update db now i (data\<lparr>data_email := v\<rparr>))))
           = map email (rows db)"
    unfolding Client_update_def update_interleaved_fst
    by (rule update_keeps_column(2) [OF blank_email_validated [OF assms(1,2)]])
  from validate_name_blank [OF assms(1,2)] validate_email_blank [OF assms(1,2)] n e 1 2
    updateClient_cong [OF n] updateClient_cong [OF e] 3 4 reachable_nonempty [OF assms(3)]
  show ?thesis by blast
qed

lemma reachable_db_john: "reachable 10 db_john"
  unfolding db_john_def Client_create_def
  by (rule reachable.create [OF reachable.start [of 10]]) simp

lemma rows_db_john:
  "rows db_john = [\<lparr>id' = 1, name = ''John Doe'', email = ''john@ex.com'',
                    phone = Some ''(555) 123-4567'', created_at = 10, updated_at = 10\<rparr>]"
  by code_simp

theorem C9_witness:
  "validate_name (JStr ''  '') False = Inr JUndefined \<and>
   validate_email (JStr ''  '') False = Inr JUndefined \<and>
   map name (rows (fst (Client_update db_john 20 (JStr ''1'')
                          (phone_only\<lparr>data_name := JStr ''  ''\<rparr>)))) = [''John Doe''] \<and>
   map email (rows (fst (Client_update db_john 20 (JStr ''1'')
                          (phone_only\<lparr>data_email := JStr ''  ''\<rparr>)))) = [''john@ex.com''] \<and>
   list_all (\<lambda>r. name r \<noteq> [] \<and> email r \<noteq> []) (rows db_john)"
proof -
  have h: "JStr ''  '' \<noteq> JUndefined" "trim (ToString (js_or (JStr ''  '') (JStr []))) = []"
    by (simp_all add: trim_def ToString_def js_or_def truthy_def isWhiteSpace_def)
  note t = C9_blank_name_or_email_is_not_provided
             [OF h reachable_db_john, of phone_only 20 "JStr ''1''"]
  from t have 1: "validate_name (JStr ''  '') False = Inr JUndefined"
    and 2: "validate_email (JStr ''  '') False = Inr JUndefined" by blast+
  from t have "map name (rows (fst (Client_update db_john 20 (JStr ''1'')
                          (phone_only\<lparr>data_name := JStr ''  ''\<rparr>)))) = map name (rows db_john)"
    by blast
  then have 3: "map name (rows (fst (Client_update db_john 20 (JStr ''1'')
                          (phone_only\<lparr>data_name := JStr ''  ''\<rparr>)))) = [''John Doe'']"
    by (simp add: rows_db_john)
  from t have "map email (rows (fst (Client_update db_john 20 (JStr ''1'')
                          (phone_only\<lparr>data_email := JStr ''  ''\<rparr>)))) = map email (rows db_john)"
    by blast
  then have 4: "map email (rows (fst (Client_update db_john 20 (JStr ''1'')
                          (phone_only\<lparr>data_email := JStr ''  ''\<rparr>)))) = [''john@ex.com'']"
    by (simp add: rows_db_john)
  from t have "\<forall>r \<in> set (rows db_john). name r \<noteq> [] \<and> email r \<noteq> []" by blast
  then have 5: "list_all (\<lambda>r. name r \<noteq> [] \<and> email r \<noteq> []) (rows db_john)"
    by (simp add: list_all_iff)
  from 1 2 3 4 5 show ?thesis by blast
qed

section \<open>Timestamps\<close>









text \<open>
  The hypothesis on the clock is needed: an update stamped with a time before the
  creation of the record (a clock that was set back) leaves \<open>updated_at\<close> before
  \<open>created_at\<close>.
\<close>

lemma clock_set_back:
  "map (\<lambda>r. (created_at r, updated_at r))
     (rows (fst (Client_update db_john 3 (JStr ''1'') phone_only))) = [(10, 3)]"
  by code_simp

section \<open>Duplicate emails\<close>
















text \<open>
  Outside the hypotheses of C2: a payload that fails validation never reaches the
  uniqueness check, whatever its email. The message \<open>Name contains invalid characters\<close>
  has none of the words the handler looks for, so that request is answered 500.
\<close>

lemma invalid_name_precedes_duplicate_check:
  "snd (createClient three_clients 500 bad_name_anns_email) =
     Next (createError 500 ''INTERNAL_ERROR'' ''Failed to create client''
             ''Failed to create client: Name contains invalid characters'')"
  by code_simp

end
